theory Spec2Isabelle
  imports Main "HOL-Library.Word"
begin

section \<open>Data model of the delegation node\<close>

text \<open>
  The class \<open>DelegationNode\<close> of the SDK, as a record. Identifiers, accounts and hashes
  are JavaScript strings. The optional \<open>parentId\<close> is \<open>None\<close> when the property is
  undefined. The private \<open>childrenIdentifiers\<close> and \<open>hierarchyDetails\<close> are the two
  mutable fields of the object; all the others are \<open>readonly\<close>.
\<close>

datatype Permission = ATTEST | DELEGATE

record HierarchyDetails =
  details_id :: string
  cTypeHash :: string

record DelegationNode =
  id_of :: string
  hierarchyId :: string
  parentId :: "string option"
  childrenIdentifiers :: "string list"
  account :: string
  permissions :: "Permission list"
  hierarchyDetails :: "HierarchyDetails option"
  revoked :: bool

type_synonym byte = "8 word"

type_synonym SignatureEnum = "(string \<times> byte list) list"

text \<open>
  The errors the class raises (\<open>SDKErrors\<close>). \<open>ERROR_HIERARCHY_QUERY\<close> carries the
  hierarchy id and \<open>ERROR_UNAUTHORIZED\<close> its message. \<open>InvalidNode\<close> is the error of the
  construction check. \<open>TypeError\<close> is what \<open>Array.prototype.reduce\<close> raises on an empty
  array when no initial value is given.
\<close>

datatype error =
    ERROR_HIERARCHY_QUERY string
  | ERROR_DELEGATION_ID_MISSING
  | ERROR_DELEGATION_SIGNATURE_MISSING
  | ERROR_UNAUTHORIZED string
  | InvalidNode
  | TypeError

text \<open>
  Modelled from the spec: the request builders of the chain module
  (\<open>storeAsRoot\<close>, \<open>storeAsDelegation\<close>, \<open>revoke\<close>, \<open>remove\<close>, \<open>reclaimDeposit\<close>) are
  not part of the sources at hand. Each returns an unsigned request that records the
  operation and the arguments it was built from.
\<close>

datatype SubmittableExtrinsic =
    StoreAsRoot DelegationNode
  | StoreAsDelegation DelegationNode SignatureEnum
  | Revoke string nat nat
  | Remove string nat
  | ReclaimDeposit string nat

text \<open>
  The ledger collaborator, as the three query functions the class imports:
  \<open>query\<close> and \<open>getChildren\<close> of the node's chain module and \<open>query\<close> of the hierarchy
  details' chain module (imported as \<open>queryDetails\<close>). One value of this record is one
  snapshot of the chain: every query of one operation is answered from it.
\<close>

record Chain =
  query :: "string \<Rightarrow> DelegationNode option"
  getChildren_chain :: "DelegationNode \<Rightarrow> error + DelegationNode list"
  queryDetails :: "string \<Rightarrow> HierarchyDetails option"

datatype ledger_query = Query string | QueryDetails string

text \<open>
  What a method leaves behind: the receiver after the call (\<open>self\<close>), the ledger queries
  the method itself issued, in order, and the value returned or the error thrown.
\<close>

record 'a outcome =
  self :: DelegationNode
  queries :: "ledger_query list"
  result :: "error + 'a"

record AncestorResult =
  steps :: nat
  node :: "DelegationNode option"

section \<open>Construction\<close>

text \<open>
  JavaScript tests an optional string by truthiness: undefined and the empty string
  are both falsy.
\<close>

definition truthy :: "string option \<Rightarrow> bool" where
  "truthy s = (case s of None \<Rightarrow> False | Some v \<Rightarrow> v \<noteq> [])"

text \<open>
  Modelled from the spec: \<open>DelegationNodeUtils.errorCheck\<close> is not part of the sources
  at hand. The spec: construction validates structural consistency; a node claiming to
  be root (\<open>id == hierarchyId\<close>) must have no \<open>parentId\<close>, and vice versa; a violation
  fails with \<open>InvalidNode\<close>.
\<close>

definition errorCheck :: "DelegationNode \<Rightarrow> error option" where
  "errorCheck n =
     (if id_of n = hierarchyId n \<and> parentId n \<noteq> None then Some InvalidNode
      else if id_of n \<noteq> hierarchyId n \<and> parentId n = None then Some InvalidNode
      else None)"

definition DelegationNode_constructor ::
  "string \<Rightarrow> string \<Rightarrow> string option \<Rightarrow> string list \<Rightarrow> string \<Rightarrow> Permission list \<Rightarrow> bool
     \<Rightarrow> error + DelegationNode" where
  "DelegationNode_constructor i h p cs a ps r =
     (let this = \<lparr> id_of = i, hierarchyId = h, parentId = p, childrenIdentifiers = cs,
                   account = a, permissions = ps, hierarchyDetails = None, revoked = r \<rparr>
      in case errorCheck this of Some e \<Rightarrow> Inl e | None \<Rightarrow> Inr this)"

definition childrenIds :: "DelegationNode \<Rightarrow> string list" where
  "childrenIds n = childrenIdentifiers n"

text \<open>
  \<open>UUID.generate()\<close> is passed in as \<open>uuid\<close>. The input type of \<open>newNode\<close> makes
  \<open>parentId\<close> a required property, so it is a plain string here.
\<close>

definition newNode ::
  "string \<Rightarrow> string \<Rightarrow> string \<Rightarrow> string \<Rightarrow> Permission list \<Rightarrow> error + DelegationNode" where
  "newNode uuid h p a ps = DelegationNode_constructor uuid h (Some p) [] a ps False"

definition newRoot ::
  "string \<Rightarrow> string \<Rightarrow> Permission list \<Rightarrow> string \<Rightarrow> error + DelegationNode" where
  "newRoot uuid a ps ct =
     (let nodeId = uuid
      in case DelegationNode_constructor nodeId nodeId None [] a ps False of
           Inl e \<Rightarrow> Inl e
         | Inr newNode' \<Rightarrow>
             Inr (newNode'\<lparr> hierarchyDetails := Some \<lparr> details_id = nodeId, cTypeHash = ct \<rparr> \<rparr>))"

section \<open>Queries against the ledger\<close>

definition getHierarchyDetails :: "Chain \<Rightarrow> DelegationNode \<Rightarrow> HierarchyDetails outcome" where
  "getHierarchyDetails C n =
     (case hierarchyDetails n of
        None \<Rightarrow>
          (case queryDetails C (hierarchyId n) of
             None \<Rightarrow> \<lparr> self = n, queries = [QueryDetails (hierarchyId n)],
                       result = Inl (ERROR_HIERARCHY_QUERY (hierarchyId n)) \<rparr>
           | Some d \<Rightarrow> \<lparr> self = n\<lparr> hierarchyDetails := Some d \<rparr>,
                         queries = [QueryDetails (hierarchyId n)], result = Inr d \<rparr>)
      | Some d \<Rightarrow> \<lparr> self = n, queries = [], result = Inr d \<rparr>)"

definition getParent :: "Chain \<Rightarrow> DelegationNode \<Rightarrow> DelegationNode option" where
  "getParent C n =
     (if truthy (parentId n) then (case parentId n of Some p \<Rightarrow> query C p | None \<Rightarrow> None)
      else None)"

definition getChildren :: "Chain \<Rightarrow> DelegationNode \<Rightarrow> DelegationNode list outcome" where
  "getChildren C n =
     (let refreshedNodeDetails = query C (id_of n);
          this = (case refreshedNodeDetails of
                    Some r \<Rightarrow> n\<lparr> childrenIdentifiers := childrenIds r \<rparr>
                  | None \<Rightarrow> n)
      in \<lparr> self = this, queries = [Query (id_of n)], result = getChildren_chain C this \<rparr>)"

section \<open>The delegation hash\<close>

text \<open>
  Modelled from the spec: \<open>permissionsAsBitset\<close> of the node utilities is not part of
  the sources at hand. It is called on the node and, by the spec, encodes the permission
  bitset, so it is a function of the node's permissions. It is a parameter, as are the
  byte-level helpers \<open>coToUInt8\<close>, \<open>hash\<close> (with its bit length) and \<open>u8aToHex\<close> of
  \<open>Crypto\<close>.
\<close>

record Utils =
  coToUInt8 :: "string \<Rightarrow> byte list"
  hash :: "byte list \<Rightarrow> nat \<Rightarrow> byte list"
  u8aToHex :: "byte list \<Rightarrow> string"
  permissionsAsBitset :: "Permission list \<Rightarrow> byte list"

text \<open>
  Modelled from the spec: \<open>Crypto.u8aConcat\<close> is not part of the sources at hand. The
  spec: the byte encodings are concatenated in the order given.
\<close>

definition u8aConcat :: "byte list list \<Rightarrow> byte list" where
  "u8aConcat bs = concat bs"

definition generateHash :: "Utils \<Rightarrow> DelegationNode \<Rightarrow> string" where
  "generateHash U n =
     (let propsToHash = [id_of n, hierarchyId n] @
                        (if truthy (parentId n)
                         then (case parentId n of Some p \<Rightarrow> [p] | None \<Rightarrow> []) else []);
          uint8Props = map (coToUInt8 U) propsToHash @ [permissionsAsBitset U (permissions n)]
      in u8aToHex U (hash U (u8aConcat uint8Props) 256))"

section \<open>Storing\<close>

definition isRoot :: "DelegationNode \<Rightarrow> bool" where
  "isRoot n = (id_of n = hierarchyId n \<and> \<not> truthy (parentId n))"

text \<open>A signature is an object, so it is falsy only when it is not given.\<close>

definition store :: "DelegationNode \<Rightarrow> SignatureEnum option \<Rightarrow> error + SubmittableExtrinsic" where
  "store n signature =
     (if isRoot n then Inr (StoreAsRoot n)
      else (case signature of
              None \<Rightarrow> Inl ERROR_DELEGATION_SIGNATURE_MISSING
            | Some s \<Rightarrow> Inr (StoreAsDelegation n s)))"

section \<open>Ancestry and subtree size\<close>

text \<open>
  The two recursive methods follow the ledger's parent and child links, which the
  client does not control, so they carry fuel: the number of nested recursive calls
  allowed. \<open>None\<close> is a call that has not returned within it.
\<close>

fun findAncestorOwnedBy ::
  "Chain \<Rightarrow> nat \<Rightarrow> DelegationNode \<Rightarrow> string \<Rightarrow> AncestorResult option" where
  "findAncestorOwnedBy C 0 n did =
     (if account n = did then Some \<lparr> steps = 0, node = Some n \<rparr>
      else (case getParent C n of
              Some parent \<Rightarrow> None
            | None \<Rightarrow> Some \<lparr> steps = 0, node = None \<rparr>))"
| "findAncestorOwnedBy C (Suc k) n did =
     (if account n = did then Some \<lparr> steps = 0, node = Some n \<rparr>
      else (case getParent C n of
              Some parent \<Rightarrow>
                (case findAncestorOwnedBy C k parent did of
                   None \<Rightarrow> None
                 | Some res \<Rightarrow> Some (res\<lparr> steps := steps res + 1 \<rparr>))
            | None \<Rightarrow> Some \<lparr> steps = 0, node = None \<rparr>))"

text \<open>
  \<open>Promise.all\<close>: rejected as soon as one of the promises is rejected, pending while
  none is rejected and one is pending, and fulfilled with all the values otherwise.
  Of several rejections the first in the list is reported.
\<close>

fun promise_all :: "(error + 'a) option list \<Rightarrow> (error + 'a list) option" where
  "promise_all [] = Some (Inr [])"
| "promise_all (p # ps) =
     (case p of
        Some (Inl e) \<Rightarrow> Some (Inl e)
      | Some (Inr v) \<Rightarrow>
          (case promise_all ps of
             Some (Inr vs) \<Rightarrow> Some (Inr (v # vs))
           | Some (Inl e) \<Rightarrow> Some (Inl e)
           | None \<Rightarrow> None)
      | None \<Rightarrow>
          (case promise_all ps of
             Some (Inl e) \<Rightarrow> Some (Inl e)
           | _ \<Rightarrow> None))"

text \<open>
  \<open>reduce\<close> without an initial value: the first element starts the fold, and an empty
  array is a \<open>TypeError\<close>. Counts are natural numbers; JavaScript's numbers add them
  exactly as long as they stay below \<open>2\<^sup>5\<^sup>3\<close>.
\<close>

definition reduce :: "('a \<Rightarrow> 'a \<Rightarrow> 'a) \<Rightarrow> 'a list \<Rightarrow> error + 'a" where
  "reduce f xs = (case xs of [] \<Rightarrow> Inl TypeError | x # rest \<Rightarrow> Inr (foldl f x rest))"

fun subtreeNodeCount :: "Chain \<Rightarrow> nat \<Rightarrow> DelegationNode \<Rightarrow> (error + nat) option" where
  "subtreeNodeCount C 0 n =
     (case result (getChildren C n) of
        Inl e \<Rightarrow> Some (Inl e)
      | Inr children \<Rightarrow> if length children = 0 then Some (Inr 0) else None)"
| "subtreeNodeCount C (Suc k) n =
     (case result (getChildren C n) of
        Inl e \<Rightarrow> Some (Inl e)
      | Inr children \<Rightarrow>
          if length children = 0 then Some (Inr 0)
          else (case promise_all (map (subtreeNodeCount C k) children) of
                  None \<Rightarrow> None
                | Some (Inl e) \<Rightarrow> Some (Inl e)
                | Some (Inr childrensChildCounts) \<Rightarrow>
                    (case reduce (+) childrensChildCounts of
                       Inl e \<Rightarrow> Some (Inl e)
                     | Inr summed \<Rightarrow> Some (Inr (length children + summed)))))"

section \<open>Bounded cascade requests\<close>

definition unauthorized_message :: "string \<Rightarrow> string" where
  "unauthorized_message did =
     ''The DID '' @ did @ '' is not among the delegators and may not revoke this node''"

definition revoke ::
  "Chain \<Rightarrow> nat \<Rightarrow> DelegationNode \<Rightarrow> string \<Rightarrow> (error + SubmittableExtrinsic) option" where
  "revoke C fuel n did =
     (case findAncestorOwnedBy C fuel n did of
        None \<Rightarrow> None
      | Some res \<Rightarrow>
          (case node res of
             None \<Rightarrow> Some (Inl (ERROR_UNAUTHORIZED (unauthorized_message did)))
           | Some owner \<Rightarrow>
               (case subtreeNodeCount C fuel n of
                  None \<Rightarrow> None
                | Some (Inl e) \<Rightarrow> Some (Inl e)
                | Some (Inr childCount) \<Rightarrow>
                    Some (Inr (Revoke (id_of n) (steps res) childCount)))))"

definition remove_node ::
  "Chain \<Rightarrow> nat \<Rightarrow> DelegationNode \<Rightarrow> (error + SubmittableExtrinsic) option" where
  "remove_node C fuel n =
     (case subtreeNodeCount C fuel n of
        None \<Rightarrow> None
      | Some (Inl e) \<Rightarrow> Some (Inl e)
      | Some (Inr childCount) \<Rightarrow> Some (Inr (Remove (id_of n) childCount)))"

definition reclaimDeposit ::
  "Chain \<Rightarrow> nat \<Rightarrow> DelegationNode \<Rightarrow> (error + SubmittableExtrinsic) option" where
  "reclaimDeposit C fuel n =
     (case subtreeNodeCount C fuel n of
        None \<Rightarrow> None
      | Some (Inl e) \<Rightarrow> Some (Inl e)
      | Some (Inr childCount) \<Rightarrow> Some (Inr (ReclaimDeposit (id_of n) childCount)))"

section \<open>Notions the properties are stated with\<close>

text \<open>The node \<open>k\<close> parent hops above a node, following \<open>getParent\<close> on the ledger.\<close>

fun ancestor_at :: "Chain \<Rightarrow> DelegationNode \<Rightarrow> nat \<Rightarrow> DelegationNode option" where
  "ancestor_at C n 0 = Some n"
| "ancestor_at C n (Suc k) =
     (case getParent C n of None \<Rightarrow> None | Some p \<Rightarrow> ancestor_at C p k)"

text \<open>
  A delegation tree: a node and the trees of its children. \<open>on_chain\<close> says that the
  ledger presents this tree below the root: at every node, \<open>getChildren\<close> returns the
  roots of the subtrees, in order. \<open>descendants\<close> counts the nodes below the root and
  \<open>depth\<close> is the length of the longest path down from it.
\<close>

datatype dtree = DNode (root_of: DelegationNode) (subtrees: "dtree list")

fun on_chain :: "Chain \<Rightarrow> dtree \<Rightarrow> bool" where
  "on_chain C (DNode m ts) =
     (result (getChildren C m) = Inr (map root_of ts) \<and> (\<forall>t \<in> set ts. on_chain C t))"

fun descendants :: "dtree \<Rightarrow> nat" where
  "descendants (DNode m ts) = length ts + sum_list (map descendants ts)"

fun depth :: "dtree \<Rightarrow> nat" where
  "depth (DNode m ts) = (if ts = [] then 0 else Suc (fold max (map depth ts) 0))"

text \<open>
  Modelled from the spec: the chain module's \<open>getChildren\<close> is not part of the sources
  at hand. The spec: each child id is resolved to its full record via the ledger, in the
  ledger's reported order; an expected node that is absent on re-query is surfaced as an
  error.
\<close>

fun resolve_all ::
  "(string \<Rightarrow> DelegationNode option) \<Rightarrow> string list \<Rightarrow> error + DelegationNode list" where
  "resolve_all q [] = Inr []"
| "resolve_all q (c # cs) =
     (case q c of
        None \<Rightarrow> Inl ERROR_DELEGATION_ID_MISSING
      | Some m \<Rightarrow> (case resolve_all q cs of Inl e \<Rightarrow> Inl e | Inr ms \<Rightarrow> Inr (m # ms)))"

definition resolveChildren ::
  "(string \<Rightarrow> DelegationNode option) \<Rightarrow> DelegationNode \<Rightarrow> error + DelegationNode list" where
  "resolveChildren q n = resolve_all q (childrenIds n)"

section \<open>The scenario of the specification\<close>

text \<open>
  Root \<open>R\<close> of account \<open>A\<close>, its child \<open>C1\<close> of account \<open>B\<close> and the grandchild \<open>C2\<close> of
  account \<open>D\<close>, as the ledger stores them.
\<close>

definition nodeR :: DelegationNode where
  "nodeR = \<lparr> id_of = ''R'', hierarchyId = ''R'', parentId = None,
             childrenIdentifiers = [''C1''], account = ''A'',
             permissions = [DELEGATE, ATTEST], hierarchyDetails = None, revoked = False \<rparr>"

definition nodeC1 :: DelegationNode where
  "nodeC1 = \<lparr> id_of = ''C1'', hierarchyId = ''R'', parentId = Some ''R'',
              childrenIdentifiers = [''C2''], account = ''B'',
              permissions = [ATTEST], hierarchyDetails = None, revoked = False \<rparr>"

definition nodeC2 :: DelegationNode where
  "nodeC2 = \<lparr> id_of = ''C2'', hierarchyId = ''R'', parentId = Some ''C1'',
              childrenIdentifiers = [], account = ''D'',
              permissions = [ATTEST], hierarchyDetails = None, revoked = False \<rparr>"

definition scenario_query :: "string \<Rightarrow> DelegationNode option" where
  "scenario_query i =
     (if i = ''R'' then Some nodeR else if i = ''C1'' then Some nodeC1
      else if i = ''C2'' then Some nodeC2 else None)"

definition scenario :: Chain where
  "scenario = \<lparr> query = scenario_query,
                getChildren_chain = resolveChildren scenario_query,
                queryDetails = (\<lambda>h. if h = ''R''
                                      then Some \<lparr> details_id = ''R'', cTypeHash = ''ctype'' \<rparr>
                                      else None) \<rparr>"

definition scenario_tree :: dtree where
  "scenario_tree = DNode nodeR [DNode nodeC1 [DNode nodeC2 []]]"

text \<open>
  A ledger that no longer has the record of \<open>C1\<close> but still has \<open>C2\<close>, and the client's
  object for \<open>C1\<close> with its cached children.
\<close>

definition pruned_query :: "string \<Rightarrow> DelegationNode option" where
  "pruned_query i = (if i = ''C2'' then Some nodeC2 else None)"

definition pruned :: Chain where
  "pruned = \<lparr> query = pruned_query,
              getChildren_chain = resolveChildren pruned_query,
              queryDetails = (\<lambda>h. None) \<rparr>"

text \<open>Stand-ins for the byte-level helpers, to run \<open>generateHash\<close> on an example.\<close>

definition example_utils :: Utils where
  "example_utils =
     \<lparr> coToUInt8 = map of_char,
       hash = (\<lambda>bytes bits. take (bits div 8) bytes),
       u8aToHex = map (\<lambda>b. char_of (unat b)),
       permissionsAsBitset = map (\<lambda>p. case p of ATTEST \<Rightarrow> 1 | DELEGATE \<Rightarrow> 2) \<rparr>"

section \<open>Auxiliary facts\<close>

lemmas scenario_defs = scenario_def scenario_query_def nodeR_def nodeC1_def nodeC2_def
  getChildren_def getParent_def truthy_def childrenIds_def resolveChildren_def

lemma promise_all_values: "promise_all (map (\<lambda>v. Some (Inr v)) vs) = Some (Inr vs)"
  by (induction vs) simp_all

lemma promise_all_fulfilled:
  "promise_all ps = Some (Inr vs) \<Longrightarrow> ps = map (\<lambda>v. Some (Inr v)) vs"
proof (induction ps arbitrary: vs)
  case Nil
  then show ?case by simp
next
  case (Cons p ps)
  then show ?case
    by (auto split: option.splits sum.splits)
qed

lemma foldl_plus_nat: "foldl (+) (a::nat) xs = a + sum_list xs"
  by (induction xs arbitrary: a) simp_all

lemma reduce_plus: "vs \<noteq> [] \<Longrightarrow> reduce (+) vs = Inr (sum_list (vs::nat list))"
  by (cases vs) (simp_all add: reduce_def foldl_plus_nat)

lemma count_leaf:
  "result (getChildren C n) = Inr [] \<Longrightarrow> subtreeNodeCount C fuel n = Some (Inr 0)"
  by (cases fuel) simp_all

lemma count_step:
  assumes "result (getChildren C n) = Inr cs" and "cs \<noteq> []"
    and "map (subtreeNodeCount C k) cs = map (\<lambda>v. Some (Inr v)) vs"
  shows "subtreeNodeCount C (Suc k) n = Some (Inr (length cs + sum_list vs))"
proof -
  from assms(3) have len: "length vs = length cs"
    by (metis length_map)
  with assms(2) have "vs \<noteq> []" by auto
  then show ?thesis
    using assms by (simp add: promise_all_values reduce_plus)
qed

lemma count_mono:
  "subtreeNodeCount C k n = Some (Inr v) \<Longrightarrow> k \<le> k' \<Longrightarrow> subtreeNodeCount C k' n = Some (Inr v)"
proof (induction k arbitrary: n k' v)
  case 0
  then obtain cs where cs: "result (getChildren C n) = Inr cs"
    by (cases "result (getChildren C n)") auto
  with 0 have "cs = []" "v = 0" by (auto split: if_splits)
  with cs show ?case by (simp add: count_leaf)
next
  case (Suc k)
  from Suc.prems(2) obtain j where j: "k' = Suc j" "k \<le> j" by (cases k') auto
  from Suc.prems(1) obtain cs where cs: "result (getChildren C n) = Inr cs"
    by (cases "result (getChildren C n)") auto
  show ?case
  proof (cases "cs = []")
    case True
    with cs Suc.prems(1) show ?thesis by (simp add: j(1))
  next
    case False
    with cs Suc.prems(1) obtain vs where
      vs: "promise_all (map (subtreeNodeCount C k) cs) = Some (Inr vs)"
      by (auto split: option.splits sum.splits)
    then have m: "map (subtreeNodeCount C k) cs = map (\<lambda>v. Some (Inr v)) vs"
      by (rule promise_all_fulfilled)
    have "map (subtreeNodeCount C j) cs = map (\<lambda>v. Some (Inr v)) vs"
    proof (rule nth_equalityI)
      show "length (map (subtreeNodeCount C j) cs) = length (map (\<lambda>v. Some (Inr v)) vs)"
        using m by (metis length_map)
    next
      fix i assume i: "i < length (map (subtreeNodeCount C j) cs)"
      then have "subtreeNodeCount C k (cs ! i) = Some (Inr (vs ! i))"
        using m by (metis length_map nth_map)
      from Suc.IH[OF this j(2)] i m
      show "map (subtreeNodeCount C j) cs ! i = map (\<lambda>v. Some (Inr v)) vs ! i"
        by (metis length_map nth_map)
    qed
    from count_step[OF cs False this] have "subtreeNodeCount C (Suc j) n = Some (Inr (length cs + sum_list vs))" .
    moreover from count_step[OF cs False m] Suc.prems(1) have "v = length cs + sum_list vs" by simp
    ultimately show ?thesis by (simp add: j(1))
  qed
qed

lemma fold_max_upper: "(x::nat) \<in> set xs \<Longrightarrow> x \<le> fold max xs a"
proof (induction xs arbitrary: a)
  case Nil
  then show ?case by simp
next
  case (Cons y ys)
  have base: "b \<le> fold max ys b" for b :: nat
    by (induction ys arbitrary: b) (auto intro: order_trans[OF max.cobounded2])
  from Cons show ?case
    using base[of "max y a"] by auto
qed

lemma count_tree:
  "on_chain C t \<Longrightarrow> depth t \<le> fuel \<Longrightarrow>
   subtreeNodeCount C fuel (root_of t) = Some (Inr (descendants t))"
proof (induction t arbitrary: fuel)
  case (DNode m ts)
  from DNode.prems(1) have cs: "result (getChildren C m) = Inr (map root_of ts)"
    and sub: "\<And>t. t \<in> set ts \<Longrightarrow> on_chain C t" by auto
  show ?case
  proof (cases "ts = []")
    case True
    with cs show ?thesis by (simp add: count_leaf)
  next
    case False
    with DNode.prems(2) obtain f where f: "fuel = Suc f" "fold max (map depth ts) 0 \<le> f"
      by (cases fuel) auto
    have "map (subtreeNodeCount C f) (map root_of ts) = map (\<lambda>v. Some (Inr v)) (map descendants ts)"
    proof -
      have "subtreeNodeCount C f (root_of t) = Some (Inr (descendants t))" if "t \<in> set ts" for t
      proof -
        from that have "depth t \<le> fold max (map depth ts) 0"
          by (intro fold_max_upper) simp
        with f(2) have "depth t \<le> f" by simp
        from DNode.IH[OF that sub[OF that] this] show ?thesis .
      qed
      then show ?thesis by simp
    qed
    from count_step[OF cs _ this] False show ?thesis
      by (simp add: f(1))
  qed
qed


lemma findAncestor_self:
  "account n = did \<Longrightarrow> findAncestorOwnedBy C k n did = Some \<lparr> steps = 0, node = Some n \<rparr>"
  by (cases k) simp_all

lemma findAncestor_owner_at:
  "ancestor_at C n k = Some a \<Longrightarrow> account a = did \<Longrightarrow>
   (\<forall>j<k. \<forall>m. ancestor_at C n j = Some m \<longrightarrow> account m \<noteq> did) \<Longrightarrow> k \<le> fuel \<Longrightarrow>
   findAncestorOwnedBy C fuel n did = Some \<lparr> steps = k, node = Some a \<rparr>"
proof (induction k arbitrary: n fuel)
  case 0
  then show ?case by (simp add: findAncestor_self)
next
  case (Suc k)
  from Suc.prems(1) obtain p where p: "getParent C n = Some p" "ancestor_at C p k = Some a"
    by (auto split: option.splits)
  from Suc.prems(3) have n: "account n \<noteq> did" by auto
  from Suc.prems(4) obtain f where f: "fuel = Suc f" "k \<le> f" by (cases fuel) auto
  have "\<forall>j<k. \<forall>m. ancestor_at C p j = Some m \<longrightarrow> account m \<noteq> did"
  proof (intro allI impI)
    fix j m assume "j < k" "ancestor_at C p j = Some m"
    with Suc.prems(3) p(1) show "account m \<noteq> did"
      by (auto dest!: spec[where x = "Suc j"])
  qed
  with Suc.IH[OF p(2) Suc.prems(2) _ f(2)]
  have "findAncestorOwnedBy C f p did = Some \<lparr> steps = k, node = Some a \<rparr>" by blast
  with n p(1) f(1) show ?case by simp
qed

lemma findAncestor_none_at:
  "ancestor_at C n k = Some t \<Longrightarrow> getParent C t = None \<Longrightarrow>
   (\<forall>j\<le>k. \<forall>m. ancestor_at C n j = Some m \<longrightarrow> account m \<noteq> did) \<Longrightarrow> k \<le> fuel \<Longrightarrow>
   findAncestorOwnedBy C fuel n did = Some \<lparr> steps = k, node = None \<rparr>"
proof (induction k arbitrary: n fuel)
  case 0
  then show ?case by (cases fuel) auto
next
  case (Suc k)
  from Suc.prems(1) obtain p where p: "getParent C n = Some p" "ancestor_at C p k = Some t"
    by (auto split: option.splits)
  from Suc.prems(3) have n: "account n \<noteq> did" by auto
  from Suc.prems(4) obtain f where f: "fuel = Suc f" "k \<le> f" by (cases fuel) auto
  have "\<forall>j\<le>k. \<forall>m. ancestor_at C p j = Some m \<longrightarrow> account m \<noteq> did"
  proof (intro allI impI)
    fix j m assume "j \<le> k" "ancestor_at C p j = Some m"
    with Suc.prems(3) p(1) show "account m \<noteq> did"
      by (auto dest!: spec[where x = "Suc j"])
  qed
  with Suc.IH[OF p(2) Suc.prems(2) _ f(2)]
  have "findAncestorOwnedBy C f p did = Some \<lparr> steps = k, node = None \<rparr>" by blast
  with n p(1) f(1) show ?case by simp
qed

lemma resolve_all_Inr: "resolve_all q ids = Inr cs \<longleftrightarrow> map Some cs = map q ids"
proof (induction ids arbitrary: cs)
  case Nil
  then show ?case by auto
next
  case (Cons c ids)
  show ?case
  proof (cases "q c")
    case None
    then show ?thesis by (cases cs) auto
  next
    case (Some m)
    show ?thesis
    proof (cases "resolve_all q ids")
      case (Inl e)
      with Cons.IH have "\<And>ms. map Some ms \<noteq> map q ids" by simp
      with Some Inl show ?thesis by (cases cs) auto
    next
      case (Inr ms)
      have ms: "map Some ms = map q ids"
        using Cons.IH[of ms] Inr by simp
      have "map Some ms' = map q ids \<longleftrightarrow> ms' = ms" for ms'
        unfolding ms[symmetric] by (simp add: inj_map_eq_map)
      with Some Inr show ?thesis by (cases cs) auto
    qed
  qed
qed

lemma count_decompose:
  assumes "subtreeNodeCount C fuel n = Some (Inr v)"
    and "result (getChildren C n) = Inr cs" and "cs \<noteq> []"
  shows "\<exists>k vs. fuel = Suc k \<and> map (subtreeNodeCount C k) cs = map (\<lambda>v. Some (Inr v)) vs \<and>
           v = length cs + sum_list vs"
proof (cases fuel)
  case 0
  with assms show ?thesis by simp
next
  case (Suc k)
  with assms obtain vs where vs: "promise_all (map (subtreeNodeCount C k) cs) = Some (Inr vs)"
    by (auto split: option.splits sum.splits)
  then have m: "map (subtreeNodeCount C k) cs = map (\<lambda>v. Some (Inr v)) vs"
    by (rule promise_all_fulfilled)
  from count_step[OF assms(2,3) m] assms(1) Suc have "v = length cs + sum_list vs" by simp
  with m Suc show ?thesis by blast
qed

section \<open>The properties\<close>

text \<open>
  Claim C1. \<open>revoke\<close> decides on the result of \<open>findAncestorOwnedBy\<close> first. When that
  result has no node, it fails with \<open>ERROR_UNAUTHORIZED\<close>, whatever the subtree count
  would be, and no request is built. When it has a node and \<open>subtreeNodeCount\<close> returns
  a count, the request is the revocation of the node's own id, with the steps of the
  ancestry result as depth bound and the count as revocation bound; every request that
  \<open>revoke\<close> returns has this form. In particular a DID that owns neither the node nor
  any node up to the top of its chain of parents is refused.
\<close>

theorem revoke_authorized_bounds:
  "(findAncestorOwnedBy C fuel n did = Some res \<and> node res = None \<longrightarrow>
      revoke C fuel n did = Some (Inl (ERROR_UNAUTHORIZED (unauthorized_message did)))) \<and>
   (findAncestorOwnedBy C fuel n did = Some res \<and> node res = Some owner \<and>
    subtreeNodeCount C fuel n = Some (Inr c) \<longrightarrow>
      revoke C fuel n did = Some (Inr (Revoke (id_of n) (steps res) c))) \<and>
   (revoke C fuel n did = Some (Inr rq) \<longrightarrow>
      (\<exists>res' owner' c'. findAncestorOwnedBy C fuel n did = Some res' \<and> node res' = Some owner' \<and>
         subtreeNodeCount C fuel n = Some (Inr c') \<and> rq = Revoke (id_of n) (steps res') c')) \<and>
   (ancestor_at C n k = Some apex \<and> getParent C apex = None \<and>
    (\<forall>j\<le>k. \<forall>m. ancestor_at C n j = Some m \<longrightarrow> account m \<noteq> did) \<and> k \<le> fuel \<longrightarrow>
      revoke C fuel n did = Some (Inl (ERROR_UNAUTHORIZED (unauthorized_message did))))"
proof (intro conjI impI)
  assume "findAncestorOwnedBy C fuel n did = Some res \<and> node res = None"
  then show "revoke C fuel n did = Some (Inl (ERROR_UNAUTHORIZED (unauthorized_message did)))"
    by (simp add: revoke_def)
next
  assume "findAncestorOwnedBy C fuel n did = Some res \<and> node res = Some owner \<and>
    subtreeNodeCount C fuel n = Some (Inr c)"
  then show "revoke C fuel n did = Some (Inr (Revoke (id_of n) (steps res) c))"
    by (simp add: revoke_def)
next
  assume "revoke C fuel n did = Some (Inr rq)"
  then show "\<exists>res' owner' c'. findAncestorOwnedBy C fuel n did = Some res' \<and> node res' = Some owner' \<and>
         subtreeNodeCount C fuel n = Some (Inr c') \<and> rq = Revoke (id_of n) (steps res') c'"
    by (auto simp: revoke_def split: option.splits sum.splits)
next
  assume a: "ancestor_at C n k = Some apex \<and> getParent C apex = None \<and>
    (\<forall>j\<le>k. \<forall>m. ancestor_at C n j = Some m \<longrightarrow> account m \<noteq> did) \<and> k \<le> fuel"
  then have "findAncestorOwnedBy C fuel n did = Some \<lparr> steps = k, node = None \<rparr>"
    by (intro findAncestor_none_at[of C n k apex]) simp_all
  then show "revoke C fuel n did = Some (Inl (ERROR_UNAUTHORIZED (unauthorized_message did)))"
    by (simp add: revoke_def)
qed

theorem revoke_authorized_bounds_witness:
  "findAncestorOwnedBy scenario 2 nodeC2 ''B'' = Some \<lparr> steps = 1, node = Some nodeC1 \<rparr> \<and>
   subtreeNodeCount scenario 2 nodeC2 = Some (Inr 0) \<and>
   revoke scenario 2 nodeC2 ''B'' = Some (Inr (Revoke ''C2'' 1 0)) \<and>
   ancestor_at scenario nodeC2 2 = Some nodeR \<and> getParent scenario nodeR = None \<and>
   ancestor_at scenario nodeC2 1 = Some nodeC1 \<and>
   account nodeC2 \<noteq> ''Z'' \<and> account nodeC1 \<noteq> ''Z'' \<and> account nodeR \<noteq> ''Z'' \<and>
   findAncestorOwnedBy scenario 2 nodeC2 ''Z'' = Some \<lparr> steps = 2, node = None \<rparr> \<and>
   revoke scenario 2 nodeC2 ''Z'' =
     Some (Inl (ERROR_UNAUTHORIZED (unauthorized_message ''Z'')))"
proof -
  have b: "findAncestorOwnedBy scenario 2 nodeC2 ''B'' = Some \<lparr> steps = 1, node = Some nodeC1 \<rparr>"
    by code_simp
  have c: "subtreeNodeCount scenario 2 nodeC2 = Some (Inr 0)"
    by code_simp
  have z: "findAncestorOwnedBy scenario 2 nodeC2 ''Z'' = Some \<lparr> steps = 2, node = None \<rparr>"
    by code_simp
  have apx: "ancestor_at scenario nodeC2 2 = Some nodeR" "getParent scenario nodeR = None"
    by code_simp+
  have none: "\<forall>j\<le>2. \<forall>m. ancestor_at scenario nodeC2 j = Some m \<longrightarrow> account m \<noteq> ''Z''"
    by (simp add: numeral_2_eq_2 le_Suc_eq all_conj_distrib scenario_defs)
  have mid: "ancestor_at scenario nodeC2 1 = Some nodeC1" by code_simp
  have acc: "account nodeC2 \<noteq> ''Z''" "account nodeC1 \<noteq> ''Z''" "account nodeR \<noteq> ''Z''"
    by (simp_all add: nodeC2_def nodeC1_def nodeR_def)
  have i: "id_of nodeC2 = ''C2''" by (simp add: nodeC2_def)
  note t = revoke_authorized_bounds[where C = scenario and fuel = 2 and n = nodeC2]
  note tb = t[where did = "''B''" and res = "\<lparr> steps = 1, node = Some nodeC1 \<rparr>"
      and owner = nodeC1 and c = 0]
  note tz = t[where did = "''Z''" and res = "\<lparr> steps = 2, node = None \<rparr>" and k = 2
      and apex = nodeR]
  from tb[THEN conjunct2, THEN conjunct1] b c i
  have rb: "revoke scenario 2 nodeC2 ''B'' = Some (Inr (Revoke ''C2'' 1 0))" by simp
  from tz[THEN conjunct1] z
  have rz: "revoke scenario 2 nodeC2 ''Z'' = Some (Inl (ERROR_UNAUTHORIZED (unauthorized_message ''Z'')))"
    by simp
  from tz[THEN conjunct2, THEN conjunct2, THEN conjunct2] apx none
  have "revoke scenario 2 nodeC2 ''Z'' = Some (Inl (ERROR_UNAUTHORIZED (unauthorized_message ''Z'')))"
    by simp
  show ?thesis
    by (intro conjI) (rule b c z apx mid acc rb rz)+
qed

text \<open>
  Claim C2. \<open>store\<close> on a root (the id is the hierarchy id and there is no parent id;
  the code tests the parent id by truthiness) returns the root-creation request whatever
  the signature argument is. On any other node it fails with
  \<open>ERROR_DELEGATION_SIGNATURE_MISSING\<close> without a signature and returns the delegation
  request carrying the node and exactly the given signature with one.
\<close>

theorem store_root_or_signature:
  "(isRoot n \<longleftrightarrow> id_of n = hierarchyId n \<and> \<not> truthy (parentId n)) \<and>
   (id_of n = hierarchyId n \<and> parentId n = None \<longrightarrow> store n sg = Inr (StoreAsRoot n)) \<and>
   (id_of n \<noteq> hierarchyId n \<or> truthy (parentId n) \<longrightarrow>
      store n None = Inl ERROR_DELEGATION_SIGNATURE_MISSING \<and>
      store n (Some s) = Inr (StoreAsDelegation n s))"
  by (simp add: store_def isRoot_def truthy_def)

theorem store_root_or_signature_witness:
  "id_of nodeR = hierarchyId nodeR \<and> parentId nodeR = None \<and>
   store nodeR None = Inr (StoreAsRoot nodeR) \<and>
   store nodeR (Some [(''sr25519'', [1, 2])]) = Inr (StoreAsRoot nodeR) \<and>
   id_of nodeC1 \<noteq> hierarchyId nodeC1 \<and> truthy (parentId nodeC1) \<and>
   store nodeC1 None = Inl ERROR_DELEGATION_SIGNATURE_MISSING \<and>
   store nodeC1 (Some [(''sr25519'', [1, 2])]) =
     Inr (StoreAsDelegation nodeC1 [(''sr25519'', [1, 2])])"
proof -
  have r: "id_of nodeR = hierarchyId nodeR \<and> parentId nodeR = None"
    by (simp add: nodeR_def)
  have c1': "id_of nodeC1 \<noteq> hierarchyId nodeC1" and c2': "truthy (parentId nodeC1)"
    by (simp_all add: nodeC1_def truthy_def)
  from c1' have c: "id_of nodeC1 \<noteq> hierarchyId nodeC1 \<or> truthy (parentId nodeC1)" ..
  note t = store_root_or_signature[THEN conjunct2]
  from t[of nodeR None, THEN conjunct1] r
  have r1: "store nodeR None = Inr (StoreAsRoot nodeR)" by blast
  from t[of nodeR "Some [(''sr25519'', [1, 2])]", THEN conjunct1] r
  have r2: "store nodeR (Some [(''sr25519'', [1, 2])]) = Inr (StoreAsRoot nodeR)" by blast
  from t[of nodeC1 _ "[(''sr25519'', [1, 2])]", THEN conjunct2] c
  have c1: "store nodeC1 None = Inl ERROR_DELEGATION_SIGNATURE_MISSING \<and>
      store nodeC1 (Some [(''sr25519'', [1, 2])]) =
        Inr (StoreAsDelegation nodeC1 [(''sr25519'', [1, 2])])" by (rule mp)
  from r c1' c2' r1 r2 c1 show ?thesis by (intro conjI) (erule conjunct1 conjunct2 | assumption)+
qed

text \<open>
  Claim C3. \<open>subtreeNodeCount\<close> returns 0 when the refreshed list of children is empty.
  When the children are \<open>c1..cn\<close> and their own counts are \<open>v1..vn\<close>, it returns
  \<open>n + (v1 + ... + vn)\<close>, and a count it returns for a node with children always has
  this form. More fuel does not change a count. When the ledger presents a tree below the
  node, the count is the number of nodes of that tree other than its root: every
  descendant, not the node itself; fuel equal to the depth of the tree is enough.
\<close>

theorem subtreeNodeCount_descendants:
  "(result (getChildren C n) = Inr [] \<longrightarrow> subtreeNodeCount C fuel n = Some (Inr 0)) \<and>
   (result (getChildren C n) = Inr cs \<and> cs \<noteq> [] \<and>
    map (subtreeNodeCount C fuel) cs = map (\<lambda>v. Some (Inr v)) vs \<longrightarrow>
      subtreeNodeCount C (Suc fuel) n = Some (Inr (length cs + sum_list vs))) \<and>
   (subtreeNodeCount C fuel n = Some (Inr v) \<and> result (getChildren C n) = Inr cs \<and> cs \<noteq> [] \<longrightarrow>
      (\<exists>k ws. fuel = Suc k \<and> map (subtreeNodeCount C k) cs = map (\<lambda>w. Some (Inr w)) ws \<and>
         v = length cs + sum_list ws)) \<and>
   (subtreeNodeCount C fuel n = Some (Inr v) \<and> fuel \<le> fuel' \<longrightarrow>
      subtreeNodeCount C fuel' n = Some (Inr v)) \<and>
   (on_chain C t \<and> depth t \<le> fuel \<longrightarrow>
      subtreeNodeCount C fuel (root_of t) = Some (Inr (descendants t)))"
proof (intro conjI impI)
  assume "result (getChildren C n) = Inr []"
  then show "subtreeNodeCount C fuel n = Some (Inr 0)" by (rule count_leaf)
next
  assume "result (getChildren C n) = Inr cs \<and> cs \<noteq> [] \<and>
    map (subtreeNodeCount C fuel) cs = map (\<lambda>v. Some (Inr v)) vs"
  then show "subtreeNodeCount C (Suc fuel) n = Some (Inr (length cs + sum_list vs))"
    by (intro count_step[of C n cs fuel vs]) simp_all
next
  assume "subtreeNodeCount C fuel n = Some (Inr v) \<and> result (getChildren C n) = Inr cs \<and> cs \<noteq> []"
  then show "\<exists>k ws. fuel = Suc k \<and> map (subtreeNodeCount C k) cs = map (\<lambda>w. Some (Inr w)) ws \<and>
         v = length cs + sum_list ws"
    by (intro count_decompose[of C fuel n v cs]) simp_all
next
  assume "subtreeNodeCount C fuel n = Some (Inr v) \<and> fuel \<le> fuel'"
  then show "subtreeNodeCount C fuel' n = Some (Inr v)"
    by (intro count_mono[of C fuel n v fuel']) simp_all
next
  assume "on_chain C t \<and> depth t \<le> fuel"
  then show "subtreeNodeCount C fuel (root_of t) = Some (Inr (descendants t))"
    by (intro count_tree[of C t fuel]) simp_all
qed

theorem subtreeNodeCount_descendants_witness:
  "result (getChildren scenario nodeC2) = Inr [] \<and>
   subtreeNodeCount scenario 0 nodeC2 = Some (Inr 0) \<and>
   result (getChildren scenario nodeR) = Inr [nodeC1] \<and>
   map (subtreeNodeCount scenario 1) [nodeC1] = map (\<lambda>v. Some (Inr v)) [1] \<and>
   subtreeNodeCount scenario (Suc 1) nodeR = Some (Inr (length [nodeC1] + sum_list [1])) \<and>
   (\<exists>k ws. Suc 1 = Suc k \<and>
        map (subtreeNodeCount scenario k) [nodeC1] = map (\<lambda>w. Some (Inr w)) ws \<and>
        length [nodeC1] + sum_list [1] = length [nodeC1] + sum_list ws) \<and>
   (0::nat) \<le> 7 \<and> subtreeNodeCount scenario 7 nodeC2 = Some (Inr 0) \<and>
   on_chain scenario scenario_tree \<and> depth scenario_tree \<le> 2 \<and>
   descendants scenario_tree = 2 \<and>
   subtreeNodeCount scenario 2 nodeR = Some (Inr 2)"
proof -
  have l: "result (getChildren scenario nodeC2) = Inr []" by code_simp
  have r: "result (getChildren scenario nodeR) = Inr [nodeC1]" by code_simp
  have m: "map (subtreeNodeCount scenario 1) [nodeC1] = map (\<lambda>v. Some (Inr v)) [1]" by code_simp
  have ne: "[nodeC1] \<noteq> []" by simp
  have oc: "on_chain scenario scenario_tree" by code_simp
  have dp: "depth scenario_tree \<le> 2" by code_simp
  have ds: "descendants scenario_tree = 2" by code_simp
  have rt: "root_of scenario_tree = nodeR" by (simp add: scenario_tree_def)
  from subtreeNodeCount_descendants[where C = scenario and n = nodeC2 and fuel = 0, THEN conjunct1] l
  have a1: "subtreeNodeCount scenario 0 nodeC2 = Some (Inr 0)" by (rule mp)
  note t = subtreeNodeCount_descendants[where C = scenario and n = nodeR and cs = "[nodeC1]"]
  from t[where fuel = 1 and vs = "[1]", THEN conjunct2, THEN conjunct1] r ne m
  have a2: "subtreeNodeCount scenario (Suc 1) nodeR = Some (Inr (length [nodeC1] + sum_list [1]))"
    by blast
  from t[where fuel = "Suc 1" and v = "length [nodeC1] + sum_list [1]",
      THEN conjunct2, THEN conjunct2, THEN conjunct1] a2 r ne
  have a3: "\<exists>k ws. Suc 1 = Suc k \<and>
        map (subtreeNodeCount scenario k) [nodeC1] = map (\<lambda>w. Some (Inr w)) ws \<and>
        length [nodeC1] + sum_list [1] = length [nodeC1] + sum_list ws"
    by blast
  have le: "(0::nat) \<le> 7" by simp
  from subtreeNodeCount_descendants[where C = scenario and n = nodeC2 and fuel = 0 and fuel' = 7
      and v = 0, THEN conjunct2, THEN conjunct2, THEN conjunct2, THEN conjunct1] a1 le
  have a4: "subtreeNodeCount scenario 7 nodeC2 = Some (Inr 0)" by blast
  from subtreeNodeCount_descendants[where C = scenario and t = scenario_tree and fuel = 2,
      THEN conjunct2, THEN conjunct2, THEN conjunct2, THEN conjunct2] oc dp
  have "subtreeNodeCount scenario 2 (root_of scenario_tree) = Some (Inr (descendants scenario_tree))"
    by blast
  then have a5: "subtreeNodeCount scenario 2 nodeR = Some (Inr 2)"
    by (simp only: rt ds)
  show ?thesis
    by (intro conjI) (rule l a1 r m a2 a3 le a4 oc dp ds a5)+
qed

text \<open>
  Claim C4. When the node's account is the queried DID, \<open>findAncestorOwnedBy\<close> returns
  0 steps and the node itself. When the node \<open>k\<close> parent hops up is owned by the DID and
  none of the nodes below it on the way is, it returns \<open>k\<close> steps and that ancestor (with
  fuel for the \<open>k\<close> nested calls).
\<close>

theorem findAncestorOwnedBy_steps:
  "(account n = did \<longrightarrow>
      findAncestorOwnedBy C fuel n did = Some \<lparr> steps = 0, node = Some n \<rparr>) \<and>
   (ancestor_at C n k = Some a \<and> account a = did \<and>
    (\<forall>j<k. \<forall>m. ancestor_at C n j = Some m \<longrightarrow> account m \<noteq> did) \<and> k \<le> fuel \<longrightarrow>
      findAncestorOwnedBy C fuel n did = Some \<lparr> steps = k, node = Some a \<rparr>)"
proof (intro conjI impI)
  assume "account n = did"
  then show "findAncestorOwnedBy C fuel n did = Some \<lparr> steps = 0, node = Some n \<rparr>"
    by (rule findAncestor_self)
next
  assume "ancestor_at C n k = Some a \<and> account a = did \<and>
    (\<forall>j<k. \<forall>m. ancestor_at C n j = Some m \<longrightarrow> account m \<noteq> did) \<and> k \<le> fuel"
  then show "findAncestorOwnedBy C fuel n did = Some \<lparr> steps = k, node = Some a \<rparr>"
    by (intro findAncestor_owner_at[of C n k a did fuel]) simp_all
qed

theorem findAncestorOwnedBy_steps_witness:
  "account nodeC2 = ''D'' \<and>
   findAncestorOwnedBy scenario 0 nodeC2 ''D'' = Some \<lparr> steps = 0, node = Some nodeC2 \<rparr> \<and>
   ancestor_at scenario nodeC2 2 = Some nodeR \<and> account nodeR = ''A'' \<and>
   ancestor_at scenario nodeC2 1 = Some nodeC1 \<and>
   account nodeC2 \<noteq> ''A'' \<and> account nodeC1 \<noteq> ''A'' \<and>
   (2::nat) \<le> 2 \<and>
   findAncestorOwnedBy scenario 2 nodeC2 ''A'' = Some \<lparr> steps = 2, node = Some nodeR \<rparr>"
proof -
  have d: "account nodeC2 = ''D''" by (simp add: nodeC2_def)
  have a: "ancestor_at scenario nodeC2 2 = Some nodeR" by code_simp
  have o: "account nodeR = ''A''" by (simp add: nodeR_def)
  have f: "\<forall>j<2. \<forall>m. ancestor_at scenario nodeC2 j = Some m \<longrightarrow> account m \<noteq> ''A''"
    by (simp add: numeral_2_eq_2 All_less_Suc scenario_defs)
  have mid: "ancestor_at scenario nodeC2 1 = Some nodeC1" by code_simp
  have acc: "account nodeC2 \<noteq> ''A''" "account nodeC1 \<noteq> ''A''"
    by (simp_all add: nodeC2_def nodeC1_def)
  have le: "(2::nat) \<le> 2" by simp
  from findAncestorOwnedBy_steps[where C = scenario and n = nodeC2 and did = "''D''" and fuel = 0,
      THEN conjunct1] d
  have a1: "findAncestorOwnedBy scenario 0 nodeC2 ''D'' = Some \<lparr> steps = 0, node = Some nodeC2 \<rparr>"
    by (rule mp)
  from findAncestorOwnedBy_steps[where C = scenario and n = nodeC2 and did = "''A''" and fuel = 2
      and k = 2 and a = nodeR, THEN conjunct2] a o f le
  have a2: "findAncestorOwnedBy scenario 2 nodeC2 ''A'' = Some \<lparr> steps = 2, node = Some nodeR \<rparr>"
    by blast
  show ?thesis
    by (intro conjI) (rule d a1 a o mid acc le a2)+
qed

text \<open>
  Claim C5. \<open>generateHash\<close> is the hex encoding of the 256-bit hash of the bytes of the
  id, then those of the hierarchy id, then those of the parent id when there is one
  (tested by truthiness), then the permission bitset. Two nodes that agree on these four
  fields have the same hash, whatever their other fields are.
\<close>

theorem generateHash_fields:
  "generateHash U n =
     u8aToHex U (hash U (coToUInt8 U (id_of n) @ coToUInt8 U (hierarchyId n) @
                         (case parentId n of
                            None \<Rightarrow> []
                          | Some p \<Rightarrow> if p \<noteq> [] then coToUInt8 U p else []) @
                         permissionsAsBitset U (permissions n)) 256) \<and>
   (id_of n = id_of m \<and> hierarchyId n = hierarchyId m \<and> parentId n = parentId m \<and>
    permissions n = permissions m \<longrightarrow> generateHash U n = generateHash U m)"
  by (auto simp: generateHash_def u8aConcat_def truthy_def split: option.splits)

theorem generateHash_fields_witness:
  "id_of nodeC1 = id_of (nodeC1\<lparr> childrenIdentifiers := [], account := ''X'', revoked := True \<rparr>) \<and>
   hierarchyId nodeC1 =
     hierarchyId (nodeC1\<lparr> childrenIdentifiers := [], account := ''X'', revoked := True \<rparr>) \<and>
   parentId nodeC1 =
     parentId (nodeC1\<lparr> childrenIdentifiers := [], account := ''X'', revoked := True \<rparr>) \<and>
   permissions nodeC1 =
     permissions (nodeC1\<lparr> childrenIdentifiers := [], account := ''X'', revoked := True \<rparr>) \<and>
   nodeC1 \<noteq> nodeC1\<lparr> childrenIdentifiers := [], account := ''X'', revoked := True \<rparr> \<and>
   generateHash example_utils nodeC1 =
     generateHash example_utils
       (nodeC1\<lparr> childrenIdentifiers := [], account := ''X'', revoked := True \<rparr>)"
  using generateHash_fields[of example_utils nodeC1
      "nodeC1\<lparr> childrenIdentifiers := [], account := ''X'', revoked := True \<rparr>", THEN conjunct2]
  by (simp add: nodeC1_def)

text \<open>
  Claim C6. With the hierarchy details cached on the node, \<open>getHierarchyDetails\<close>
  returns them and queries nothing; every node built by \<open>newRoot\<close> is in this case.
  Without them it issues exactly one query, for the node's hierarchy id. When the ledger
  has no such hierarchy, it fails with \<open>ERROR_HIERARCHY_QUERY\<close> and the node is
  unchanged. Otherwise it returns the ledger's answer and stores it on the node, so that
  a second call on the node returns the same details without a query.
\<close>

theorem getHierarchyDetails_cache:
  "(hierarchyDetails n = Some d \<longrightarrow>
      getHierarchyDetails C n = \<lparr> self = n, queries = [], result = Inr d \<rparr>) \<and>
   (newRoot uuid a ps ct = Inr r \<longrightarrow>
      getHierarchyDetails C r =
        \<lparr> self = r, queries = [], result = Inr \<lparr> details_id = uuid, cTypeHash = ct \<rparr> \<rparr>) \<and>
   (hierarchyDetails n = None \<longrightarrow>
      queries (getHierarchyDetails C n) = [QueryDetails (hierarchyId n)]) \<and>
   (hierarchyDetails n = None \<and> queryDetails C (hierarchyId n) = None \<longrightarrow>
      result (getHierarchyDetails C n) = Inl (ERROR_HIERARCHY_QUERY (hierarchyId n)) \<and>
      self (getHierarchyDetails C n) = n) \<and>
   (hierarchyDetails n = None \<and> queryDetails C (hierarchyId n) = Some d \<longrightarrow>
      result (getHierarchyDetails C n) = Inr d \<and>
      self (getHierarchyDetails C n) = n\<lparr> hierarchyDetails := Some d \<rparr> \<and>
      getHierarchyDetails C (self (getHierarchyDetails C n)) =
        \<lparr> self = n\<lparr> hierarchyDetails := Some d \<rparr>, queries = [], result = Inr d \<rparr>)"
proof (intro conjI impI)
  assume "newRoot uuid a ps ct = Inr r"
  then have "hierarchyDetails r = Some \<lparr> details_id = uuid, cTypeHash = ct \<rparr>"
    by (auto simp: newRoot_def Let_def split: sum.splits)
  then show "getHierarchyDetails C r =
        \<lparr> self = r, queries = [], result = Inr \<lparr> details_id = uuid, cTypeHash = ct \<rparr> \<rparr>"
    by (simp add: getHierarchyDetails_def)
qed (auto simp: getHierarchyDetails_def split: option.splits)

theorem getHierarchyDetails_cache_witness:
  "hierarchyDetails nodeC1 = None \<and>
   queryDetails scenario (hierarchyId nodeC1) = Some \<lparr> details_id = ''R'', cTypeHash = ''ctype'' \<rparr> \<and>
   queries (getHierarchyDetails scenario nodeC1) = [QueryDetails ''R''] \<and>
   result (getHierarchyDetails scenario nodeC1) = Inr \<lparr> details_id = ''R'', cTypeHash = ''ctype'' \<rparr> \<and>
   queries (getHierarchyDetails scenario (self (getHierarchyDetails scenario nodeC1))) = [] \<and>
   result (getHierarchyDetails scenario (self (getHierarchyDetails scenario nodeC1))) =
     Inr \<lparr> details_id = ''R'', cTypeHash = ''ctype'' \<rparr> \<and>
   queryDetails pruned (hierarchyId nodeC1) = None \<and>
   result (getHierarchyDetails pruned nodeC1) = Inl (ERROR_HIERARCHY_QUERY ''R'') \<and>
   (\<exists>r. newRoot ''R'' ''A'' [DELEGATE, ATTEST] ''ctype'' = Inr r \<and>
        queries (getHierarchyDetails pruned r) = [] \<and>
        result (getHierarchyDetails pruned r) = Inr \<lparr> details_id = ''R'', cTypeHash = ''ctype'' \<rparr>)"
proof -
  have h: "hierarchyDetails nodeC1 = None" and i: "hierarchyId nodeC1 = ''R''"
    by (simp_all add: nodeC1_def)
  have q: "queryDetails scenario (hierarchyId nodeC1) = Some \<lparr> details_id = ''R'', cTypeHash = ''ctype'' \<rparr>"
    by (simp add: i scenario_def)
  have p: "queryDetails pruned (hierarchyId nodeC1) = None"
    by (simp add: pruned_def)
  obtain r where r: "newRoot ''R'' ''A'' [DELEGATE, ATTEST] ''ctype'' = Inr r"
    by (simp add: newRoot_def DelegationNode_constructor_def errorCheck_def Let_def)
  note t = getHierarchyDetails_cache[where n = nodeC1]
  from t[where C = scenario, THEN conjunct2, THEN conjunct2, THEN conjunct1] h i
  have a1: "queries (getHierarchyDetails scenario nodeC1) = [QueryDetails ''R'']" by simp
  from t[where C = scenario and d = "\<lparr> details_id = ''R'', cTypeHash = ''ctype'' \<rparr>",
      THEN conjunct2, THEN conjunct2, THEN conjunct2, THEN conjunct2] h q
  have a2: "result (getHierarchyDetails scenario nodeC1) = Inr \<lparr> details_id = ''R'', cTypeHash = ''ctype'' \<rparr>"
    and a3: "getHierarchyDetails scenario (self (getHierarchyDetails scenario nodeC1)) =
        \<lparr> self = nodeC1\<lparr> hierarchyDetails := Some \<lparr> details_id = ''R'', cTypeHash = ''ctype'' \<rparr> \<rparr>,
          queries = [], result = Inr \<lparr> details_id = ''R'', cTypeHash = ''ctype'' \<rparr> \<rparr>"
    by blast+
  from t[where C = pruned, THEN conjunct2, THEN conjunct2, THEN conjunct2, THEN conjunct1] h p i
  have a4: "result (getHierarchyDetails pruned nodeC1) = Inl (ERROR_HIERARCHY_QUERY ''R'')" by simp
  from getHierarchyDetails_cache[where C = pruned and r = r, THEN conjunct2, THEN conjunct1] r
  have a5: "getHierarchyDetails pruned r =
        \<lparr> self = r, queries = [], result = Inr \<lparr> details_id = ''R'', cTypeHash = ''ctype'' \<rparr> \<rparr>"
    by blast
  from a3 have a3': "queries (getHierarchyDetails scenario (self (getHierarchyDetails scenario nodeC1))) = []"
    "result (getHierarchyDetails scenario (self (getHierarchyDetails scenario nodeC1))) =
     Inr \<lparr> details_id = ''R'', cTypeHash = ''ctype'' \<rparr>" by simp_all
  from r a5 have a6: "\<exists>r. newRoot ''R'' ''A'' [DELEGATE, ATTEST] ''ctype'' = Inr r \<and>
        queries (getHierarchyDetails pruned r) = [] \<and>
        result (getHierarchyDetails pruned r) = Inr \<lparr> details_id = ''R'', cTypeHash = ''ctype'' \<rparr>"
    by simp
  show ?thesis
    by (intro conjI) (rule h q a1 a2 a3' p a4 a6)+
qed

text \<open>
  Claim C7, as amended. \<open>getChildren\<close> first queries the ledger for the node's own
  record, and this is its only query of its own. When the ledger reports a record, the
  cached children ids are replaced by the reported ones and the chain helper resolves
  the node with the replaced list; with a helper that resolves each id through the
  ledger, the children returned are exactly the records of the reported ids, in the
  reported order. When the ledger reports no record, the cached children ids are kept
  and the helper resolves those.
\<close>

theorem getChildren_refresh:
  "queries (getChildren C n) = [Query (id_of n)] \<and>
   (query C (id_of n) = Some r \<longrightarrow>
      self (getChildren C n) = n\<lparr> childrenIdentifiers := childrenIds r \<rparr> \<and>
      result (getChildren C n) = getChildren_chain C (n\<lparr> childrenIdentifiers := childrenIds r \<rparr>)) \<and>
   (query C (id_of n) = Some r \<and> getChildren_chain C = resolveChildren (query C) \<longrightarrow>
      (result (getChildren C n) = Inr cs \<longleftrightarrow> map Some cs = map (query C) (childrenIds r))) \<and>
   (query C (id_of n) = None \<longrightarrow>
      self (getChildren C n) = n \<and> result (getChildren C n) = getChildren_chain C n)"
proof (intro conjI impI)
  assume a: "query C (id_of n) = Some r \<and> getChildren_chain C = resolveChildren (query C)"
  then have "result (getChildren C n) = resolve_all (query C) (childrenIds r)"
    by (simp add: getChildren_def Let_def resolveChildren_def childrenIds_def)
  then show "result (getChildren C n) = Inr cs \<longleftrightarrow> map Some cs = map (query C) (childrenIds r)"
    by (simp add: resolve_all_Inr)
qed (simp_all add: getChildren_def Let_def)

theorem getChildren_refresh_witness:
  "query scenario (id_of (nodeR\<lparr> childrenIdentifiers := [''C2'', ''C9''] \<rparr>)) = Some nodeR \<and>
   getChildren_chain scenario = resolveChildren (query scenario) \<and>
   map Some [nodeC1] = map (query scenario) (childrenIds nodeR) \<and>
   self (getChildren scenario (nodeR\<lparr> childrenIdentifiers := [''C2'', ''C9''] \<rparr>)) = nodeR \<and>
   result (getChildren scenario (nodeR\<lparr> childrenIdentifiers := [''C2'', ''C9''] \<rparr>)) = Inr [nodeC1] \<and>
   query pruned (id_of nodeC1) = None \<and>
   self (getChildren pruned nodeC1) = nodeC1 \<and>
   result (getChildren pruned nodeC1) = getChildren_chain pruned nodeC1"
proof -
  let ?stale = "nodeR\<lparr> childrenIdentifiers := [''C2'', ''C9''] \<rparr>"
  have q: "query scenario (id_of ?stale) = Some nodeR"
    by (simp add: scenario_def scenario_query_def nodeR_def)
  have g: "getChildren_chain scenario = resolveChildren (query scenario)"
    by (simp add: scenario_def)
  have m: "map Some [nodeC1] = map (query scenario) (childrenIds nodeR)"
    by (simp add: scenario_def scenario_query_def nodeR_def childrenIds_def)
  have u: "?stale\<lparr> childrenIdentifiers := childrenIds nodeR \<rparr> = nodeR"
    by (simp add: nodeR_def childrenIds_def)
  have p: "query pruned (id_of nodeC1) = None"
    by (simp add: pruned_def pruned_query_def nodeC1_def)
  note t = getChildren_refresh[where C = scenario and n = ?stale and r = nodeR and cs = "[nodeC1]"]
  from t[THEN conjunct2, THEN conjunct1] q u
  have a1: "self (getChildren scenario ?stale) = nodeR" by simp
  from t[THEN conjunct2, THEN conjunct2, THEN conjunct1] q g m
  have a2: "result (getChildren scenario ?stale) = Inr [nodeC1]" by blast
  from getChildren_refresh[where C = pruned and n = nodeC1, THEN conjunct2, THEN conjunct2,
      THEN conjunct2] p
  have a3: "self (getChildren pruned nodeC1) = nodeC1"
    and a4: "result (getChildren pruned nodeC1) = getChildren_chain pruned nodeC1"
    by blast+
  show ?thesis
    by (intro conjI) (rule q g m a1 a2 p a3 a4)+
qed

text \<open>
  The claim C7 as first stated has the cached children ids replaced for every node. On
  the ledger without the record of \<open>C1\<close>, the client's object for \<open>C1\<close> keeps its
  cached list and the children returned are resolved from it.
\<close>

theorem getChildren_stale_cache_counterexample:
  "query pruned (id_of nodeC1) = None \<and>
   childrenIds nodeC1 = [''C2''] \<and>
   self (getChildren pruned nodeC1) = nodeC1 \<and>
   result (getChildren pruned nodeC1) = Inr [nodeC2]"
  by (simp add: pruned_def pruned_query_def nodeC1_def nodeC2_def getChildren_def Let_def
      childrenIds_def resolveChildren_def)

text \<open>
  Claim C8. Constructing a node whose id differs from its hierarchy id without a
  parent id fails with \<open>InvalidNode\<close>, and so does constructing a node whose id is its
  hierarchy id with a parent id, directly or through \<open>newNode\<close>. The two consistent
  shapes are accepted.
\<close>

theorem constructor_rejects_inconsistent:
  "(i \<noteq> h \<longrightarrow> DelegationNode_constructor i h None cs a ps r = Inl InvalidNode) \<and>
   DelegationNode_constructor h h (Some p) cs a ps r = Inl InvalidNode \<and>
   newNode h h p a ps = Inl InvalidNode \<and>
   (i \<noteq> h \<longrightarrow> (\<exists>n. DelegationNode_constructor i h (Some p) cs a ps r = Inr n \<and> parentId n = Some p)) \<and>
   (\<exists>n. DelegationNode_constructor h h None cs a ps r = Inr n \<and> parentId n = None)"
  by (simp add: DelegationNode_constructor_def errorCheck_def newNode_def)

theorem constructor_rejects_inconsistent_witness:
  "''C1'' \<noteq> ''R'' \<and>
   DelegationNode_constructor ''C1'' ''R'' None [] ''B'' [ATTEST] False = Inl InvalidNode \<and>
   DelegationNode_constructor ''R'' ''R'' (Some ''P'') [] ''A'' [ATTEST] False = Inl InvalidNode \<and>
   (\<exists>n. DelegationNode_constructor ''C1'' ''R'' (Some ''R'') [] ''B'' [ATTEST] False = Inr n \<and>
        parentId n = Some ''R'')"
proof -
  have d: "''C1'' \<noteq> ''R''" by simp
  note t = constructor_rejects_inconsistent[where i = "''C1''" and h = "''R''" and cs = "[]"
      and a = "''B''" and ps = "[ATTEST]" and r = False and p = "''R''"]
  from t[THEN conjunct1] d
  have a1: "DelegationNode_constructor ''C1'' ''R'' None [] ''B'' [ATTEST] False = Inl InvalidNode"
    by (rule mp)
  from t[THEN conjunct2, THEN conjunct2, THEN conjunct2, THEN conjunct1] d
  have a2: "\<exists>n. DelegationNode_constructor ''C1'' ''R'' (Some ''R'') [] ''B'' [ATTEST] False = Inr n \<and>
        parentId n = Some ''R''" by (rule mp)
  have a3: "DelegationNode_constructor ''R'' ''R'' (Some ''P'') [] ''A'' [ATTEST] False = Inl InvalidNode"
    by (rule constructor_rejects_inconsistent[THEN conjunct2, THEN conjunct1])
  show ?thesis
    by (intro conjI) (rule d a1 a2 a3)+
qed

text \<open>
  Claim C9. \<open>remove\<close> and \<open>reclaimDeposit\<close> take no DID and check no ownership: when
  \<open>subtreeNodeCount\<close> returns a count, each returns its request for the node's own id
  with that count as the bound on removals, and every request they return has this form;
  when the count fails, both fail with the same error.
\<close>

theorem remove_reclaim_bounds:
  "(subtreeNodeCount C fuel n = Some (Inr c) \<longrightarrow>
      remove_node C fuel n = Some (Inr (Remove (id_of n) c)) \<and>
      reclaimDeposit C fuel n = Some (Inr (ReclaimDeposit (id_of n) c))) \<and>
   (remove_node C fuel n = Some (Inr rq) \<longrightarrow>
      (\<exists>c'. subtreeNodeCount C fuel n = Some (Inr c') \<and> rq = Remove (id_of n) c')) \<and>
   (reclaimDeposit C fuel n = Some (Inr rq) \<longrightarrow>
      (\<exists>c'. subtreeNodeCount C fuel n = Some (Inr c') \<and> rq = ReclaimDeposit (id_of n) c')) \<and>
   (subtreeNodeCount C fuel n = Some (Inl e) \<longrightarrow>
      remove_node C fuel n = Some (Inl e) \<and> reclaimDeposit C fuel n = Some (Inl e))"
  by (auto simp: remove_node_def reclaimDeposit_def split: option.splits sum.splits)

theorem remove_reclaim_bounds_witness:
  "subtreeNodeCount scenario 2 nodeC1 = Some (Inr 1) \<and>
   remove_node scenario 2 nodeC1 = Some (Inr (Remove ''C1'' 1)) \<and>
   reclaimDeposit scenario 2 nodeC1 = Some (Inr (ReclaimDeposit ''C1'' 1)) \<and>
   (\<exists>c'. subtreeNodeCount scenario 2 nodeC1 = Some (Inr c') \<and> Remove ''C1'' 1 = Remove (id_of nodeC1) c') \<and>
   (\<exists>c'. subtreeNodeCount scenario 2 nodeC1 = Some (Inr c') \<and>
      ReclaimDeposit ''C1'' 1 = ReclaimDeposit (id_of nodeC1) c') \<and>
   subtreeNodeCount pruned 2 nodeR = Some (Inl ERROR_DELEGATION_ID_MISSING) \<and>
   remove_node pruned 2 nodeR = Some (Inl ERROR_DELEGATION_ID_MISSING) \<and>
   reclaimDeposit pruned 2 nodeR = Some (Inl ERROR_DELEGATION_ID_MISSING)"
proof -
  have c: "subtreeNodeCount scenario 2 nodeC1 = Some (Inr 1)" by code_simp
  have e: "subtreeNodeCount pruned 2 nodeR = Some (Inl ERROR_DELEGATION_ID_MISSING)" by code_simp
  have i: "id_of nodeC1 = ''C1''" by (simp add: nodeC1_def)
  note t = remove_reclaim_bounds[where C = scenario and fuel = 2 and n = nodeC1 and c = 1]
  from t[THEN conjunct1] c i
  have a1: "remove_node scenario 2 nodeC1 = Some (Inr (Remove ''C1'' 1))"
    and a2: "reclaimDeposit scenario 2 nodeC1 = Some (Inr (ReclaimDeposit ''C1'' 1))"
    by simp_all
  from t[where rq = "Remove ''C1'' 1", THEN conjunct2, THEN conjunct1] a1
  have a3: "\<exists>c'. subtreeNodeCount scenario 2 nodeC1 = Some (Inr c') \<and>
      Remove ''C1'' 1 = Remove (id_of nodeC1) c'" by (rule mp)
  from t[where rq = "ReclaimDeposit ''C1'' 1", THEN conjunct2, THEN conjunct2, THEN conjunct1] a2
  have a4: "\<exists>c'. subtreeNodeCount scenario 2 nodeC1 = Some (Inr c') \<and>
      ReclaimDeposit ''C1'' 1 = ReclaimDeposit (id_of nodeC1) c'" by (rule mp)
  from remove_reclaim_bounds[where C = pruned and fuel = 2 and n = nodeR
      and e = ERROR_DELEGATION_ID_MISSING, THEN conjunct2, THEN conjunct2, THEN conjunct2] e
  have a5: "remove_node pruned 2 nodeR = Some (Inl ERROR_DELEGATION_ID_MISSING)"
    and a6: "reclaimDeposit pruned 2 nodeR = Some (Inl ERROR_DELEGATION_ID_MISSING)"
    by blast+
  show ?thesis
    by (intro conjI) (rule c a1 a2 a3 a4 e a5 a6)+
qed

text \<open>
  Claim C10. When no node from the starting node up to the top of its chain of parents
  is owned by the DID, and the top is \<open>k\<close> parent hops up, \<open>findAncestorOwnedBy\<close>
  returns no node together with \<open>k\<close> steps: the increment is applied on the way back
  to the failing result as well.
\<close>

theorem findAncestorOwnedBy_unowned_steps:
  "ancestor_at C n k = Some apex \<and> getParent C apex = None \<and>
   (\<forall>j\<le>k. \<forall>m. ancestor_at C n j = Some m \<longrightarrow> account m \<noteq> did) \<and> k \<le> fuel \<longrightarrow>
     findAncestorOwnedBy C fuel n did = Some \<lparr> steps = k, node = None \<rparr>"
proof
  assume "ancestor_at C n k = Some apex \<and> getParent C apex = None \<and>
   (\<forall>j\<le>k. \<forall>m. ancestor_at C n j = Some m \<longrightarrow> account m \<noteq> did) \<and> k \<le> fuel"
  then show "findAncestorOwnedBy C fuel n did = Some \<lparr> steps = k, node = None \<rparr>"
    by (intro findAncestor_none_at[of C n k apex]) simp_all
qed

theorem findAncestorOwnedBy_unowned_steps_witness:
  "ancestor_at scenario nodeC2 2 = Some nodeR \<and> getParent scenario nodeR = None \<and>
   ancestor_at scenario nodeC2 1 = Some nodeC1 \<and>
   account nodeC2 \<noteq> ''Z'' \<and> account nodeC1 \<noteq> ''Z'' \<and> account nodeR \<noteq> ''Z'' \<and>
   (2::nat) \<le> 2 \<and>
   findAncestorOwnedBy scenario 2 nodeC2 ''Z'' = Some \<lparr> steps = 2, node = None \<rparr>"
proof -
  have a: "ancestor_at scenario nodeC2 2 = Some nodeR" by code_simp
  have p: "getParent scenario nodeR = None" by code_simp
  have f: "\<forall>j\<le>2. \<forall>m. ancestor_at scenario nodeC2 j = Some m \<longrightarrow> account m \<noteq> ''Z''"
    by (simp add: numeral_2_eq_2 le_Suc_eq all_conj_distrib scenario_defs)
  have mid: "ancestor_at scenario nodeC2 1 = Some nodeC1" by code_simp
  have acc: "account nodeC2 \<noteq> ''Z''" "account nodeC1 \<noteq> ''Z''" "account nodeR \<noteq> ''Z''"
    by (simp_all add: nodeC2_def nodeC1_def nodeR_def)
  have le: "(2::nat) \<le> 2" by simp
  from findAncestorOwnedBy_unowned_steps[where C = scenario and n = nodeC2 and did = "''Z''"
      and fuel = 2 and k = 2 and apex = nodeR] a p f le
  have a1: "findAncestorOwnedBy scenario 2 nodeC2 ''Z'' = Some \<lparr> steps = 2, node = None \<rparr>"
    by blast
  show ?thesis
    by (intro conjI) (rule a p mid acc le a1)+
qed

end
